theory Spec2Isabelle
  imports Main "HOL-Library.Word"
begin

section \<open>The search-and-replace state hook (SearchAndReplace.tsx)\<close>

subsection \<open>Data\<close>

text \<open>
  A JavaScript string is a sequence of 16-bit code units. A match record
  (\<open>ISearchResult\<close>) is opaque to the hook: it is the type parameter \<open>'r\<close>.
\<close>

type_synonym codeunit = "16 word"
type_synonym jsstring = "codeunit list"

record ISearchOptions =
  matchCase :: bool
  useRegex :: bool

text \<open>
  An object is held by reference: it has an identity besides its contents. The
  dependency check of an effect compares identities (\<open>Object.is\<close>), so the options
  of the state are an object, not only a pair of flags.
\<close>

datatype 'a obj = Obj (ref: nat) (contents: 'a)

text \<open>
  \<open>currentSearchResultIndex\<close> is a JavaScript number. The hook only ever adds integers
  to it, so it is an \<open>int\<close> here; nothing in the code keeps it non-negative. A number
  is a double, exact on integers below \<open>2^53\<close> in magnitude: the arithmetic on
  \<open>int\<close> is the arithmetic of the code for indices and deltas within that range.
\<close>

record 'r ISearchAndReplaceState =
  searchString :: jsstring
  replaceString :: jsstring
  searchResults :: "'r list"
  currentSearchResultIndex :: int
  searchOptions :: "ISearchOptions obj"

text \<open>
  The initial state is one module-level constant; its options object is created once,
  with the identity 0.
\<close>

definition initialSearchState :: "'r ISearchAndReplaceState" where
  "initialSearchState =
     \<lparr> searchString = [],
       replaceString = [],
       searchResults = [],
       currentSearchResultIndex = 0,
       searchOptions = Obj 0 \<lparr> matchCase = False, useRegex = False \<rparr> \<rparr>"

text \<open>
  The props of the hook. \<open>getSearchResults\<close> is any function of the host.
  \<open>jumpToResult\<close> is optional (\<open>jumpToResult?:\<close>): \<open>None\<close> when the host omits it.
  When supplied it returns a promise; \<open>j m\<close> tells whether the promise returned for the
  argument \<open>m\<close> is fulfilled, which is all that \<open>.then\<close> depends on. Its argument is
  an array read, hence possibly \<open>undefined\<close> (\<open>None\<close>). \<open>replace\<close> and
  \<open>focusSearchBar\<close> return nothing the hook uses; their calls are recorded as effects.
\<close>

record 'r ISearchAndReplaceProps =
  getSearchResults :: "jsstring \<Rightarrow> ISearchOptions obj \<Rightarrow> 'r list"
  jumpToResult :: "('r option \<Rightarrow> bool) option"

text \<open>The calls the hook makes to its host, and the resolution of the promise it returns.\<close>

datatype 'r effect =
    GetSearchResults jsstring "ISearchOptions obj"
  | JumpToResult "'r option"
  | FocusSearchBar
  | Replace "'r option list" jsstring
  | Resolve

text \<open>Calling a prop that is \<open>undefined\<close> throws a TypeError.\<close>

datatype error = TypeError

text \<open>The array read \<open>xs[i]\<close>: \<open>undefined\<close> outside the array.\<close>

definition at_index :: "'a list \<Rightarrow> int \<Rightarrow> 'a option" where
  "at_index xs i = (if 0 \<le> i \<and> i < int (length xs) then Some (xs ! nat i) else None)"

text \<open>
  The remainder operator \<open>%\<close> of JavaScript on integers: the quotient is truncated
  towards zero, so the result has the sign of the dividend.
\<close>

definition js_rem :: "int \<Rightarrow> int \<Rightarrow> int" where
  "js_rem a b = sgn a * (\<bar>a\<bar> mod \<bar>b\<bar>)"

subsection \<open>The state updaters\<close>

definition reset :: "'r ISearchAndReplaceState \<Rightarrow> 'r ISearchAndReplaceState" where
  "reset oldSearchState = initialSearchState"

definition performSearch ::
  "'r ISearchAndReplaceProps \<Rightarrow> bool \<Rightarrow> 'r ISearchAndReplaceState
     \<Rightarrow> error + ('r ISearchAndReplaceState \<times> 'r effect list)" where
  "performSearch props isActiveSearch oldSearchState =
     (let results = getSearchResults props (searchString oldSearchState)
                      (searchOptions oldSearchState);
          called = [GetSearchResults (searchString oldSearchState)
                      (searchOptions oldSearchState)];
          newState = oldSearchState\<lparr> searchResults := results \<rparr>
      in if isActiveSearch then
           (case jumpToResult props of
              None \<Rightarrow> Inl TypeError
            | Some j \<Rightarrow>
                (let m = at_index results (currentSearchResultIndex oldSearchState)
                 in Inr (newState,
                      called @ [JumpToResult m] @ (if j m then [FocusSearchBar] else []))))
         else Inr (newState, called))"

definition onSearchStringChange ::
  "jsstring \<Rightarrow> 'r ISearchAndReplaceState \<Rightarrow> 'r ISearchAndReplaceState" where
  "onSearchStringChange str oldSearchState =
     oldSearchState\<lparr> searchString := str, currentSearchResultIndex := 0 \<rparr>"

definition onSearchOptionsChange ::
  "ISearchOptions obj \<Rightarrow> 'r ISearchAndReplaceState \<Rightarrow> 'r ISearchAndReplaceState" where
  "onSearchOptionsChange opts oldSearchState =
     oldSearchState\<lparr> searchOptions := opts, currentSearchResultIndex := 0 \<rparr>"

definition onReplaceStringChange ::
  "jsstring \<Rightarrow> 'r ISearchAndReplaceState \<Rightarrow> 'r ISearchAndReplaceState" where
  "onReplaceStringChange str oldSearchState = oldSearchState\<lparr> replaceString := str \<rparr>"

text \<open>
  \<open>moveResultIndex\<close> is memoised with an empty dependency list
  (\<open>useCallback(..., [])\<close>): the \<open>jumpToResult\<close> it reads is the one of the first
  render, whatever the props of later renders are. \<open>firstProps\<close> are the props of
  the first render.
\<close>

definition moveResultIndex ::
  "'r ISearchAndReplaceProps \<Rightarrow> int \<Rightarrow> 'r ISearchAndReplaceState
     \<Rightarrow> 'r ISearchAndReplaceState \<times> 'r effect list" where
  "moveResultIndex firstProps delta oldSearchState =
     (let resultLen = int (length (searchResults oldSearchState))
      in if resultLen = 0 then (oldSearchState, [Resolve])
         else
           (let currIndex = currentSearchResultIndex oldSearchState;
                newIndex = currIndex + delta;
                newIndex = js_rem (if newIndex < 0 then newIndex + resultLen else newIndex)
                             resultLen;
                m = at_index (searchResults oldSearchState) newIndex
            in (oldSearchState\<lparr> currentSearchResultIndex := newIndex \<rparr>,
                (case jumpToResult firstProps of
                   Some j \<Rightarrow> JumpToResult m # (if j m then [Resolve] else [])
                 | None \<Rightarrow> [Resolve]))))"

text \<open>
  \<open>onReplace\<close> reads the state of the current render, calls the host's \<open>replace\<close>, and
  at the last index queues \<open>moveResultIndex(1)\<close>. The host's \<open>replace\<close> is opaque: it
  does not write the hook's state.
\<close>

definition onReplace ::
  "'r ISearchAndReplaceProps \<Rightarrow> bool \<Rightarrow> 'r ISearchAndReplaceState
     \<Rightarrow> 'r ISearchAndReplaceState \<times> 'r effect list" where
  "onReplace firstProps all searchState =
     (if all then
        (searchState,
         [Replace (map Some (searchResults searchState)) (replaceString searchState)])
      else
        (let replaced =
               [Replace [at_index (searchResults searchState)
                           (currentSearchResultIndex searchState)]
                  (replaceString searchState)]
         in if currentSearchResultIndex searchState
                 = int (length (searchResults searchState)) - 1
            then (case moveResultIndex firstProps 1 searchState of
                    (s, effs) \<Rightarrow> (s, replaced @ effs))
            else (searchState, replaced)))"

subsection \<open>Events and the search effect\<close>

text \<open>
  The \<open>useEffect\<close> with dependencies \<open>[searchState.searchString, searchState.searchOptions]\<close>
  runs \<open>performSearch(true)\<close> after a render in which one of the two differs from the
  previous render. Strings are compared by value, the options object by its identity:
  another object with the same flags runs the effect again, the same object does not.
  The \<open>performSearch\<close> it calls is the one of the current render, with the current props.
\<close>

definition searchEffect ::
  "'r ISearchAndReplaceProps \<Rightarrow> 'r ISearchAndReplaceState \<Rightarrow> 'r ISearchAndReplaceState
     \<Rightarrow> error + ('r ISearchAndReplaceState \<times> 'r effect list)" where
  "searchEffect props prev cur =
     (if searchString prev \<noteq> searchString cur
           \<or> ref (searchOptions prev) \<noteq> ref (searchOptions cur)
      then performSearch props True cur
      else Inr (cur, []))"

datatype event =
    SearchStringChange jsstring
  | SearchOptionsChange "ISearchOptions obj"
  | ReplaceStringChange jsstring
  | MoveResultIndex int
  | OnReplace bool
  | Reset
  | PerformSearch bool

fun handler ::
  "'r ISearchAndReplaceProps \<Rightarrow> 'r ISearchAndReplaceProps \<Rightarrow> event
     \<Rightarrow> 'r ISearchAndReplaceState
     \<Rightarrow> error + ('r ISearchAndReplaceState \<times> 'r effect list)" where
  "handler firstProps props (SearchStringChange str) s = Inr (onSearchStringChange str s, [])"
| "handler firstProps props (SearchOptionsChange opts) s =
     Inr (onSearchOptionsChange opts s, [])"
| "handler firstProps props (ReplaceStringChange str) s =
     Inr (onReplaceStringChange str s, [])"
| "handler firstProps props (MoveResultIndex delta) s =
     Inr (moveResultIndex firstProps delta s)"
| "handler firstProps props (OnReplace all) s = Inr (onReplace firstProps all s)"
| "handler firstProps props Reset s = Inr (reset s, [])"
| "handler firstProps props (PerformSearch isActiveSearch) s =
     performSearch props isActiveSearch s"

text \<open>
  One event of a mounted hook, with the props of its first render and of the current
  one: the handler's state update, then the effect of the following render.
\<close>

definition step ::
  "'r ISearchAndReplaceProps \<Rightarrow> 'r ISearchAndReplaceProps \<Rightarrow> event
     \<Rightarrow> 'r ISearchAndReplaceState
     \<Rightarrow> error + ('r ISearchAndReplaceState \<times> 'r effect list)" where
  "step firstProps props ev s =
     (case handler firstProps props ev s of
        Inl e \<Rightarrow> Inl e
      | Inr (s1, effs1) \<Rightarrow>
          (case searchEffect props s s1 of
             Inl e \<Rightarrow> Inl e
           | Inr (s2, effs2) \<Rightarrow> Inr (s2, effs1 @ effs2)))"

text \<open>
  The first render starts from \<open>initialSearchState\<close>, and an effect always runs after
  the first render: mounting the hook runs \<open>performSearch(true)\<close> once.
\<close>

definition mount ::
  "'r ISearchAndReplaceProps
     \<Rightarrow> error + ('r ISearchAndReplaceState \<times> 'r effect list)" where
  "mount firstProps = performSearch firstProps True initialSearchState"

text \<open>Effects that are a search of the host, and effects that are a navigation.\<close>

fun isSearch :: "'r effect \<Rightarrow> bool" where
  "isSearch (GetSearchResults str opts) = True"
| "isSearch e = False"

fun isNavigation :: "'r effect \<Rightarrow> bool" where
  "isNavigation (JumpToResult m) = True"
| "isNavigation e = False"

definition indexInvariant :: "'r ISearchAndReplaceState \<Rightarrow> bool" where
  "indexInvariant s =
     (0 \<le> currentSearchResultIndex s
      \<and> currentSearchResultIndex s < max 1 (int (length (searchResults s))))"

section \<open>The tag creator widget (CreateDataTableTag)\<close>

subsection \<open>The regular expression \<open>/^[a-z0-9]{1,255}$/i\<close>\<close>

text \<open>
  The pattern is built from the matchers of the language standard: a matcher takes the
  input, the index reached and a continuation, and returns the end index of a match
  or failure (\<open>None\<close>). There are no capture groups in this pattern, so the match
  state is the end index alone.
\<close>

type_synonym MatchResult = "nat option"
type_synonym Continuation = "nat \<Rightarrow> MatchResult"
type_synonym Matcher = "jsstring \<Rightarrow> nat \<Rightarrow> Continuation \<Rightarrow> MatchResult"

text \<open>Upper-casing of an ASCII code unit: \<open>a\<close>..\<open>z\<close> go to \<open>A\<close>..\<open>Z\<close>.\<close>

definition toUpperCaseAscii :: "codeunit \<Rightarrow> codeunit" where
  "toUpperCaseAscii ch = (if 0x61 \<le> ch \<and> ch \<le> 0x7A then ch - 0x20 else ch)"

text \<open>
  \<open>Canonicalize\<close> for the flag \<open>i\<close> without the flag \<open>u\<close>: the code unit is
  upper-cased, except that a code unit from 128 on is never mapped below 128. The
  upper-case table of the runtime beyond ASCII is the parameter \<open>upper\<close>.
\<close>

definition Canonicalize :: "(codeunit \<Rightarrow> codeunit) \<Rightarrow> codeunit \<Rightarrow> codeunit" where
  "Canonicalize upper ch =
     (let cu = (if ch < 128 then toUpperCaseAscii ch else upper ch)
      in if 128 \<le> ch \<and> cu < 128 then ch else cu)"

text \<open>The code units of a class range \<open>lo-hi\<close>.\<close>

definition classRange :: "codeunit \<Rightarrow> codeunit \<Rightarrow> codeunit list" where
  "classRange lo hi = map word_of_nat [unat lo ..< Suc (unat hi)]"

definition CharacterSetMatcher :: "(codeunit \<Rightarrow> codeunit) \<Rightarrow> codeunit list \<Rightarrow> Matcher" where
  "CharacterSetMatcher upper A input x c =
     (if length input \<le> x then None
      else
        (let ch = input ! x;
             cc = Canonicalize upper ch
         in if \<not> list_ex (\<lambda>a. Canonicalize upper a = cc) A then None
            else c (x + 1)))"

text \<open>
  The greedy quantifier \<open>{rmin,rmax}\<close>: one more repetition is tried first, and the
  continuation is tried when that fails and \<open>rmin\<close> repetitions have been made.
\<close>

fun RepeatMatcher :: "Matcher \<Rightarrow> nat \<Rightarrow> nat \<Rightarrow> Matcher" where
  "RepeatMatcher m rmin 0 input x c = c x"
| "RepeatMatcher m rmin (Suc rmax) input x c =
     (let d = (\<lambda>y. if rmin = 0 \<and> y = x then None
                    else RepeatMatcher m (rmin - 1) rmax input y c)
      in if rmin \<noteq> 0 then m input x d
         else (case m input x d of
                 Some z \<Rightarrow> Some z
               | None \<Rightarrow> c x))"

text \<open>The assertions \<open>^\<close> and \<open>$\<close> without the flag \<open>m\<close>.\<close>

definition AssertBegin :: Matcher where
  "AssertBegin input x c = (if x = 0 then c x else None)"

definition AssertEnd :: Matcher where
  "AssertEnd input x c = (if x = length input then c x else None)"

definition Seq :: "Matcher \<Rightarrow> Matcher \<Rightarrow> Matcher" where
  "Seq m1 m2 input x c = m1 input x (\<lambda>y. m2 input y c)"

definition tagRegex :: "(codeunit \<Rightarrow> codeunit) \<Rightarrow> Matcher" where
  "tagRegex upper =
     Seq AssertBegin
       (Seq (RepeatMatcher
               (CharacterSetMatcher upper (classRange 0x61 0x7A @ classRange 0x30 0x39))
               1 255)
          AssertEnd)"

text \<open>
  \<open>val.match(regex)\<close> for a regex without the flag \<open>g\<close>: the pattern is tried at
  index 0, then at each later index up to the length of the input; the result is the
  matched substring, or \<open>null\<close> (\<open>None\<close>) when no index matches.
\<close>

function execFrom :: "Matcher \<Rightarrow> jsstring \<Rightarrow> nat \<Rightarrow> jsstring option" where
  "execFrom m input lastIndex =
     (if length input < lastIndex then None
      else (case m input lastIndex (\<lambda>y. Some y) of
              None \<Rightarrow> execFrom m input (lastIndex + 1)
            | Some e \<Rightarrow> Some (take (e - lastIndex) (drop lastIndex input))))"
  by pat_completeness auto
termination
  by (relation "measure (\<lambda>(m, input, lastIndex). Suc (length input) - lastIndex)") auto

definition js_match :: "jsstring \<Rightarrow> Matcher \<Rightarrow> jsstring option" where
  "js_match val regex = execFrom regex val 0"

subsection \<open>The widget\<close>

text \<open>
  Of a tag (\<open>ITag\<close>, declared in const/tag) the widget reads the name only. The prop
  \<open>tags\<close> may be absent (\<open>tags || []\<close>).
\<close>

record ITag =
  name :: jsstring

definition existingTags :: "ITag list option \<Rightarrow> jsstring list" where
  "existingTags tags = map name (case tags of None \<Rightarrow> [] | Some ts \<Rightarrow> ts)"

definition isValidCheck ::
  "(codeunit \<Rightarrow> codeunit) \<Rightarrow> ITag list option \<Rightarrow> jsstring \<Rightarrow> bool" where
  "isValidCheck upper tags val =
     (case js_match val (tagRegex upper) of
        None \<Rightarrow> False
      | Some match \<Rightarrow> \<not> List.member (existingTags tags) val)"

text \<open>
  The promise returned by \<open>dispatch(createTableTag(tableId, tag))\<close>, an action of the
  store outside this widget: it is fulfilled, rejected, or never settles (\<open>None\<close>).
\<close>

datatype settled = Fulfilled | Rejected

record CreateDataTableTagState =
  showSelect :: bool

text \<open>
  What leaves the widget: the creation request, and a rejected promise that nothing
  handles (the runtime reports it as an unhandled rejection).
\<close>

datatype widget_effect = CreateTableTag int jsstring | UnhandledRejection

text \<open>
  \<open>promise.finally(f)\<close> runs \<open>f\<close>, without an argument, once the promise settles, and
  returns a promise that settles as the first one did: a rejection is passed on. On a
  promise that never settles \<open>f\<close> does not run.
\<close>

definition promiseFinally ::
  "settled option \<Rightarrow> ('s \<Rightarrow> 's) \<Rightarrow> 's \<Rightarrow> 's \<times> settled option" where
  "promiseFinally promise onFinally s =
     (case promise of
        None \<Rightarrow> (s, None)
      | Some Fulfilled \<Rightarrow> (onFinally s, Some Fulfilled)
      | Some Rejected \<Rightarrow> (onFinally s, Some Rejected))"

definition setShowSelect :: "bool \<Rightarrow> CreateDataTableTagState \<Rightarrow> CreateDataTableTagState" where
  "setShowSelect b s = s\<lparr> showSelect := b \<rparr>"

text \<open>
  \<open>handleCreateTag\<close> drops the promise that \<open>finally\<close> returns (its body is a
  statement, and there is no \<open>catch\<close>), so a rejection of that promise is unhandled.
\<close>

definition handleCreateTag ::
  "(int \<Rightarrow> jsstring \<Rightarrow> settled option) \<Rightarrow> int \<Rightarrow> jsstring \<Rightarrow> CreateDataTableTagState
     \<Rightarrow> CreateDataTableTagState \<times> widget_effect list" where
  "handleCreateTag createTableTag tableId val s =
     (case promiseFinally (createTableTag tableId val) (setShowSelect False) s of
        (s', dropped) \<Rightarrow>
          (s', CreateTableTag tableId val
                 # (if dropped = Some Rejected then [UnhandledRejection] else [])))"

text \<open>
  The validation rule in the words of the specification: 1 to 255 alphanumeric
  characters, case-insensitive, and not already in the existing tag names.
\<close>

definition alphanumeric :: "codeunit \<Rightarrow> bool" where
  "alphanumeric ch =
     ((0x61 \<le> ch \<and> ch \<le> 0x7A) \<or> (0x41 \<le> ch \<and> ch \<le> 0x5A) \<or> (0x30 \<le> ch \<and> ch \<le> 0x39))"

definition matchesTagPattern :: "jsstring \<Rightarrow> bool" where
  "matchesTagPattern s = (1 \<le> length s \<and> length s \<le> 255 \<and> list_all alphanumeric s)"

section \<open>Example hosts and states\<close>

text \<open>
  A host whose search always finds three matches, one that finds one match and one
  that finds nothing, each with a navigation that always completes; and a host
  without \<open>jumpToResult\<close>. Match records are numbers here.
\<close>

definition threeMatchHost :: "nat ISearchAndReplaceProps" where
  "threeMatchHost =
     \<lparr> getSearchResults = (\<lambda>str opts. [10, 20, 30]), jumpToResult = Some (\<lambda>m. True) \<rparr>"

definition oneMatchHost :: "nat ISearchAndReplaceProps" where
  "oneMatchHost =
     \<lparr> getSearchResults = (\<lambda>str opts. [10]), jumpToResult = Some (\<lambda>m. True) \<rparr>"

definition noMatchHost :: "nat ISearchAndReplaceProps" where
  "noMatchHost = \<lparr> getSearchResults = (\<lambda>str opts. []), jumpToResult = Some (\<lambda>m. True) \<rparr>"

definition noJumpHost :: "nat ISearchAndReplaceProps" where
  "noJumpHost = \<lparr> getSearchResults = (\<lambda>str opts. [10, 20, 30]), jumpToResult = None \<rparr>"

text \<open>
  The query \<open>foo\<close> with three matches, the cursor on the first or on the last; the
  options are still the initial object.
\<close>

definition firstOfThree :: "nat ISearchAndReplaceState" where
  "firstOfThree =
     \<lparr> searchString = [0x66, 0x6F, 0x6F],
       replaceString = [0x62],
       searchResults = [10, 20, 30],
       currentSearchResultIndex = 0,
       searchOptions = Obj 0 \<lparr> matchCase = False, useRegex = False \<rparr> \<rparr>"

definition lastOfThree :: "nat ISearchAndReplaceState" where
  "lastOfThree = firstOfThree\<lparr> currentSearchResultIndex := 2 \<rparr>"

definition noMatches :: "nat ISearchAndReplaceState" where
  "noMatches = firstOfThree\<lparr> searchResults := [] \<rparr>"

text \<open>The effects of a step that did not throw.\<close>

definition effectsOf :: "error + ('s \<times> 'r effect list) \<Rightarrow> 'r effect list" where
  "effectsOf r = (case r of Inl e \<Rightarrow> [] | Inr (s, effs) \<Rightarrow> effs)"

section \<open>Properties of the search-and-replace hook\<close>

subsection \<open>Arithmetic of the index\<close>

lemma js_rem_nonneg: "0 \<le> a \<Longrightarrow> 0 < b \<Longrightarrow> js_rem a b = a mod b"
  by (cases "a = 0") (simp_all add: js_rem_def)

lemma wrapped_index:
  assumes "0 < n" "- n \<le> k"
  shows "js_rem (if k < 0 then k + n else k) n = k mod n"
proof (cases "k < 0")
  case True
  with assms have "0 \<le> k + n" by simp
  then have "js_rem (k + n) n = (k + n) mod n"
    using assms(1) by (rule js_rem_nonneg)
  with True show ?thesis by simp
next
  case False
  then show ?thesis using assms(1) by (simp add: js_rem_nonneg)
qed

text \<open>
  As long as the raw sum is not below \<open>- resultLen\<close>, the single adjustment of
  \<open>moveResultIndex\<close> gives the mathematical remainder (on numbers that doubles
  hold exactly, as everywhere in this model).
\<close>

lemma moveResultIndex_in_range:
  assumes "searchResults s \<noteq> []"
    and "- int (length (searchResults s)) \<le> currentSearchResultIndex s + delta"
  shows "currentSearchResultIndex (fst (moveResultIndex firstProps delta s))
           = (currentSearchResultIndex s + delta) mod int (length (searchResults s))"
  using assms
    wrapped_index [of "int (length (searchResults s))" "currentSearchResultIndex s + delta"]
  by (simp add: moveResultIndex_def Let_def)

lemma moveResultIndex_back_from_first:
  assumes "searchResults s \<noteq> []" "currentSearchResultIndex s = 0"
  shows "currentSearchResultIndex (fst (moveResultIndex firstProps (- 1) s))
           = int (length (searchResults s)) - 1"
proof -
  let ?n = "int (length (searchResults s))"
  have pos: "0 < ?n" using assms(1) by simp
  have "currentSearchResultIndex (fst (moveResultIndex firstProps (- 1) s)) = (- 1) mod ?n"
    using moveResultIndex_in_range [of s "- 1" firstProps] assms pos by simp
  also have "(- 1) mod ?n = ?n - 1"
    using pos by (simp add: zmod_minus1)
  finally show ?thesis .
qed

lemma moveResultIndex_keeps_results:
  "searchResults (fst (moveResultIndex firstProps delta s)) = searchResults s"
  by (simp add: moveResultIndex_def Let_def)

lemma moveResultIndex_last:
  assumes "searchResults s \<noteq> []"
    and "currentSearchResultIndex s = int (length (searchResults s)) - 1"
  shows "moveResultIndex firstProps 1 s =
     (s\<lparr> currentSearchResultIndex := 0 \<rparr>,
      (case jumpToResult firstProps of
         Some j \<Rightarrow> JumpToResult (Some (searchResults s ! 0))
                    # (if j (Some (searchResults s ! 0)) then [Resolve] else [])
       | None \<Rightarrow> [Resolve]))"
proof -
  let ?n = "int (length (searchResults s))"
  have pos: "0 < ?n" using assms(1) by simp
  have "js_rem (?n - 1 + 1) ?n = 0" using pos by (simp add: js_rem_def)
  moreover have "at_index (searchResults s) 0 = Some (searchResults s ! 0)"
    using pos by (simp add: at_index_def)
  ultimately show ?thesis
    using assms pos by (simp add: moveResultIndex_def Let_def split: option.split)
qed

subsection \<open>Changing the query or the options\<close>

text \<open>
  Claim C1, as stated: every change of \<open>searchString\<close> or \<open>searchOptions\<close> resets the
  index to 0 and re-triggers exactly one passive search, with no navigation requested.
  The effect calls \<open>performSearch(true)\<close>, an active search: for the host that finds
  three matches, typing \<open>f\<close> into the empty query runs one search and requests
  navigation to the first match.
\<close>

theorem search_change_requests_navigation:
  "filter isSearch
     (effectsOf (step threeMatchHost threeMatchHost (SearchStringChange [0x66]) initialSearchState))
     = [GetSearchResults [0x66] (Obj 0 \<lparr> matchCase = False, useRegex = False \<rparr>)]
   \<and> filter isNavigation
     (effectsOf (step threeMatchHost threeMatchHost (SearchStringChange [0x66]) initialSearchState))
     = [JumpToResult (Some 10)]"
  by (simp add: step_def searchEffect_def performSearch_def onSearchStringChange_def
        threeMatchHost_def initialSearchState_def at_index_def effectsOf_def Let_def)

text \<open>
  Claim C1, amended: when the host supplies \<open>jumpToResult\<close>, every change of
  \<open>searchString\<close> and every change of \<open>searchOptions\<close> (another options object,
  be its flags new or the same) updates the field, resets
  \<open>currentSearchResultIndex\<close> to 0 and re-triggers exactly one search, which is an
  active one: \<open>searchResults\<close> is recomputed for the new query and options,
  \<open>jumpToResult\<close> is called once with the first of the new results (\<open>undefined\<close> when
  there is none), and the search bar is focused when that navigation completes.
\<close>

theorem search_change_runs_one_active_search:
  assumes "jumpToResult props = Some j"
  shows "(str \<noteq> searchString s \<longrightarrow>
            step firstProps props (SearchStringChange str) s =
              Inr (s\<lparr> searchString := str,
                       currentSearchResultIndex := 0,
                       searchResults := getSearchResults props str (searchOptions s) \<rparr>,
                   [GetSearchResults str (searchOptions s),
                    JumpToResult (at_index (getSearchResults props str (searchOptions s)) 0)]
                   @ (if j (at_index (getSearchResults props str (searchOptions s)) 0)
                      then [FocusSearchBar] else [])))
       \<and> (ref opts \<noteq> ref (searchOptions s) \<longrightarrow>
            step firstProps props (SearchOptionsChange opts) s =
              Inr (s\<lparr> searchOptions := opts,
                       currentSearchResultIndex := 0,
                       searchResults := getSearchResults props (searchString s) opts \<rparr>,
                   [GetSearchResults (searchString s) opts,
                    JumpToResult (at_index (getSearchResults props (searchString s) opts) 0)]
                   @ (if j (at_index (getSearchResults props (searchString s) opts) 0)
                      then [FocusSearchBar] else [])))"
  using assms
  by (simp add: step_def searchEffect_def performSearch_def onSearchStringChange_def
        onSearchOptionsChange_def Let_def)

theorem search_change_runs_one_active_search_witness:
  "jumpToResult threeMatchHost = Some (\<lambda>m. True)
   \<and> [0x66] \<noteq> searchString lastOfThree
   \<and> step threeMatchHost threeMatchHost (SearchStringChange [0x66]) lastOfThree =
       Inr (firstOfThree\<lparr> searchString := [0x66] \<rparr>,
            [GetSearchResults [0x66] (Obj 0 \<lparr> matchCase = False, useRegex = False \<rparr>),
             JumpToResult (Some 10), FocusSearchBar])
   \<and> ref (Obj 1 \<lparr> matchCase = False, useRegex = False \<rparr>) \<noteq> ref (searchOptions lastOfThree)
   \<and> step threeMatchHost threeMatchHost
         (SearchOptionsChange (Obj 1 \<lparr> matchCase = False, useRegex = False \<rparr>)) lastOfThree =
       Inr (firstOfThree\<lparr> searchOptions := Obj 1 \<lparr> matchCase = False, useRegex = False \<rparr> \<rparr>,
            [GetSearchResults [0x66, 0x6F, 0x6F] (Obj 1 \<lparr> matchCase = False, useRegex = False \<rparr>),
             JumpToResult (Some 10), FocusSearchBar])"
  using search_change_runs_one_active_search
          [where props = threeMatchHost and j = "\<lambda>m. True" and str = "[0x66]"
             and s = lastOfThree and firstProps = threeMatchHost
             and opts = "Obj 1 \<lparr> matchCase = False, useRegex = False \<rparr>"]
  by (simp add: threeMatchHost_def lastOfThree_def firstOfThree_def at_index_def)

subsection \<open>Moving the cursor\<close>

text \<open>
  Claim C2: for every integer delta, \<open>moveResultIndex(delta)\<close> sets the index to
  \<open>(currentSearchResultIndex + delta) mod resultCount\<close>, never negative. The code
  adds \<open>resultLen\<close> once and then takes the remainder of JavaScript, which keeps the
  sign of the dividend: from index 0 of three results, the delta \<open>-5\<close> yields \<open>-2\<close>,
  where the mathematical remainder is 1. (Lemma \<open>moveResultIndex_in_range\<close> covers
  the deltas for which the code is right.)
\<close>

theorem moveResultIndex_far_negative_delta:
  "currentSearchResultIndex (fst (moveResultIndex threeMatchHost (- 5) firstOfThree)) = - 2
   \<and> (currentSearchResultIndex firstOfThree + (- 5))
        mod int (length (searchResults firstOfThree)) = 1"
  by (simp add: moveResultIndex_def firstOfThree_def js_rem_def Let_def)

subsection \<open>The invariant of the index\<close>

lemma indexInvariant_at_0: "currentSearchResultIndex s = 0 \<Longrightarrow> indexInvariant s"
  by (simp add: indexInvariant_def)

lemma performSearch_keeps_index:
  "performSearch props b s = Inr (s', effs) \<Longrightarrow>
     currentSearchResultIndex s' = currentSearchResultIndex s
     \<and> searchResults s' = getSearchResults props (searchString s) (searchOptions s)
     \<and> searchString s' = searchString s \<and> searchOptions s' = searchOptions s"
  by (auto simp: performSearch_def Let_def split: if_splits option.splits)

lemma searchEffect_at_0:
  assumes "searchEffect props prev cur = Inr (s', effs)"
    and "currentSearchResultIndex cur = 0"
  shows "indexInvariant s'"
proof (cases "searchString prev \<noteq> searchString cur
              \<or> ref (searchOptions prev) \<noteq> ref (searchOptions cur)")
  case True
  with assms(1) have "performSearch props True cur = Inr (s', effs)"
    by (simp add: searchEffect_def)
  then have "currentSearchResultIndex s' = currentSearchResultIndex cur"
    by (simp add: performSearch_keeps_index)
  with assms(2) show ?thesis by (simp add: indexInvariant_at_0)
next
  case False
  with assms show ?thesis by (simp add: searchEffect_def indexInvariant_at_0)
qed

lemma searchEffect_same_query:
  "searchString cur = searchString prev \<Longrightarrow> searchOptions cur = searchOptions prev \<Longrightarrow>
     searchEffect props prev cur = Inr (cur, [])"
  by (simp add: searchEffect_def)

lemma moveResultIndex_same_query:
  "searchString (fst (moveResultIndex firstProps delta s)) = searchString s
   \<and> searchOptions (fst (moveResultIndex firstProps delta s)) = searchOptions s"
  by (simp add: moveResultIndex_def Let_def)

lemma moveResultIndex_invariant:
  assumes "indexInvariant s"
    and "- int (length (searchResults s)) \<le> currentSearchResultIndex s + delta"
  shows "indexInvariant (fst (moveResultIndex firstProps delta s))"
proof (cases "searchResults s = []")
  case True
  with assms(1) show ?thesis by (simp add: moveResultIndex_def)
next
  case False
  let ?n = "int (length (searchResults s))"
  from False have pos: "0 < ?n" by simp
  have "currentSearchResultIndex (fst (moveResultIndex firstProps delta s))
          = (currentSearchResultIndex s + delta) mod ?n"
    using False assms(2) by (rule moveResultIndex_in_range)
  moreover have "0 \<le> (currentSearchResultIndex s + delta) mod ?n"
    and "(currentSearchResultIndex s + delta) mod ?n < ?n"
    using pos by simp_all
  ultimately show ?thesis
    by (simp add: indexInvariant_def moveResultIndex_keeps_results)
qed

lemma onReplace_invariant:
  assumes "indexInvariant s"
  shows "indexInvariant (fst (onReplace firstProps all s))"
proof (cases "\<not> all \<and> currentSearchResultIndex s = int (length (searchResults s)) - 1")
  case True
  from assms have "- int (length (searchResults s)) \<le> currentSearchResultIndex s + 1"
    by (simp add: indexInvariant_def)
  with assms have "indexInvariant (fst (moveResultIndex firstProps 1 s))"
    by (rule moveResultIndex_invariant)
  with True show ?thesis
    by (simp add: onReplace_def Let_def case_prod_beta)
next
  case False
  with assms show ?thesis by (auto simp: onReplace_def Let_def)
qed

lemma onReplace_same_query:
  "searchString (fst (onReplace firstProps all s)) = searchString s
   \<and> searchOptions (fst (onReplace firstProps all s)) = searchOptions s"
  using moveResultIndex_same_query [of firstProps 1 s]
  by (simp add: onReplace_def Let_def case_prod_beta)

text \<open>
  Claim C3, as stated: \<open>0 \<le> currentSearchResultIndex < max(1, length(searchResults))\<close>
  is preserved by every operation, for every behaviour of \<open>getSearchResults\<close>.
  \<open>performSearch\<close> replaces \<open>searchResults\<close> and leaves the index alone: with the
  cursor on the last of three matches, a passive search that now finds one match
  leaves index 2 in a list of length 1.
\<close>

theorem performSearch_breaks_index_invariant:
  "indexInvariant lastOfThree
   \<and> step threeMatchHost oneMatchHost (PerformSearch False) lastOfThree =
       Inr (lastOfThree\<lparr> searchResults := [10] \<rparr>,
            [GetSearchResults [0x66, 0x6F, 0x6F] (Obj 0 \<lparr> matchCase = False, useRegex = False \<rparr>)])
   \<and> \<not> indexInvariant (lastOfThree\<lparr> searchResults := [10] \<rparr>)"
  by (simp add: step_def searchEffect_def performSearch_def oneMatchHost_def
        lastOfThree_def firstOfThree_def indexInvariant_def Let_def)

text \<open>
  Claim C3, amended: the invariant holds in the initial state and is preserved by
  \<open>onSearchStringChange\<close>, \<open>onSearchOptionsChange\<close>, \<open>onReplaceStringChange\<close>,
  \<open>onReplace\<close> and \<open>reset\<close> (each with the search effect that follows it), for every
  behaviour of \<open>getSearchResults\<close>; by \<open>performSearch\<close> when the current index is
  below \<open>max(1, length)\<close> of the new result list; and by \<open>moveResultIndex(delta)\<close>
  when \<open>currentSearchResultIndex + delta\<close> is not below \<open>- length(searchResults)\<close>.
\<close>

theorem index_invariant_preserved:
  "indexInvariant (initialSearchState :: 'r ISearchAndReplaceState)
   \<and> (indexInvariant s
        \<and> (case ev of
              PerformSearch isActiveSearch \<Rightarrow>
                currentSearchResultIndex s
                  < max 1 (int (length (getSearchResults props (searchString s)
                                          (searchOptions s))))
            | MoveResultIndex delta \<Rightarrow>
                - int (length (searchResults s)) \<le> currentSearchResultIndex s + delta
            | _ \<Rightarrow> True)
        \<and> step firstProps props ev s = Inr (s', effs)
       \<longrightarrow> indexInvariant (s' :: 'r ISearchAndReplaceState))"
proof (intro conjI impI)
  show "indexInvariant (initialSearchState :: 'r ISearchAndReplaceState)"
    by (simp add: indexInvariant_def initialSearchState_def)
next
  assume a: "indexInvariant s
        \<and> (case ev of
              PerformSearch isActiveSearch \<Rightarrow>
                currentSearchResultIndex s
                  < max 1 (int (length (getSearchResults props (searchString s)
                                          (searchOptions s))))
            | MoveResultIndex delta \<Rightarrow>
                - int (length (searchResults s)) \<le> currentSearchResultIndex s + delta
            | _ \<Rightarrow> True)
        \<and> step firstProps props ev s = Inr (s', effs)"
  then have inv: "indexInvariant s" and st: "step firstProps props ev s = Inr (s', effs)"
    by simp_all
  show "indexInvariant s'"
  proof (cases ev)
    case (SearchStringChange str)
    with st have "searchEffect props s (onSearchStringChange str s) = Inr (s', effs)"
      by (simp add: step_def split: sum.splits prod.splits)
    then show ?thesis
      by (rule searchEffect_at_0) (simp add: onSearchStringChange_def)
  next
    case (SearchOptionsChange opts)
    with st have "searchEffect props s (onSearchOptionsChange opts s) = Inr (s', effs)"
      by (simp add: step_def split: sum.splits prod.splits)
    then show ?thesis
      by (rule searchEffect_at_0) (simp add: onSearchOptionsChange_def)
  next
    case (ReplaceStringChange str)
    with st have "s' = onReplaceStringChange str s"
      by (simp add: step_def searchEffect_def onReplaceStringChange_def)
    with inv show ?thesis
      by (simp add: onReplaceStringChange_def indexInvariant_def)
  next
    case (MoveResultIndex delta)
    with a have g: "- int (length (searchResults s)) \<le> currentSearchResultIndex s + delta"
      by simp
    have "searchEffect props s (fst (moveResultIndex firstProps delta s))
            = Inr (fst (moveResultIndex firstProps delta s), [])"
      by (rule searchEffect_same_query) (simp_all add: moveResultIndex_same_query)
    with st MoveResultIndex have "s' = fst (moveResultIndex firstProps delta s)"
      by (simp add: step_def split: prod.splits)
    with inv g show ?thesis by (simp add: moveResultIndex_invariant)
  next
    case (OnReplace all)
    have "searchEffect props s (fst (onReplace firstProps all s))
            = Inr (fst (onReplace firstProps all s), [])"
      by (rule searchEffect_same_query) (simp_all add: onReplace_same_query)
    with st OnReplace have "s' = fst (onReplace firstProps all s)"
      by (simp add: step_def split: prod.splits)
    with inv show ?thesis by (simp add: onReplace_invariant)
  next
    case Reset
    with st have "searchEffect props s (reset s) = Inr (s', effs)"
      by (simp add: step_def split: sum.splits prod.splits)
    then show ?thesis
      by (rule searchEffect_at_0) (simp add: reset_def initialSearchState_def)
  next
    case (PerformSearch isActiveSearch)
    with a have g: "currentSearchResultIndex s
        < max 1 (int (length (getSearchResults props (searchString s) (searchOptions s))))"
      by simp
    from st PerformSearch obtain s1 effs1
      where p: "performSearch props isActiveSearch s = Inr (s1, effs1)"
        and e: "searchEffect props s s1 = Inr (s', drop (length effs1) effs)"
      by (auto simp: step_def split: sum.splits prod.splits)
    from p have k: "currentSearchResultIndex s1 = currentSearchResultIndex s"
      "searchResults s1 = getSearchResults props (searchString s) (searchOptions s)"
      "searchString s1 = searchString s" "searchOptions s1 = searchOptions s"
      using performSearch_keeps_index [of props isActiveSearch s s1 effs1] by simp_all
    with e have "s' = s1" by (simp add: searchEffect_def)
    with k inv g show ?thesis by (simp add: indexInvariant_def)
  qed
qed

theorem index_invariant_preserved_witness:
  "indexInvariant (initialSearchState :: nat ISearchAndReplaceState)
   \<and> indexInvariant lastOfThree
   \<and> - int (length (searchResults lastOfThree)) \<le> currentSearchResultIndex lastOfThree + 2
   \<and> step threeMatchHost threeMatchHost (MoveResultIndex 2) lastOfThree
       = Inr (lastOfThree\<lparr> currentSearchResultIndex := 1 \<rparr>,
              [JumpToResult (Some 20), Resolve])
   \<and> indexInvariant (lastOfThree\<lparr> currentSearchResultIndex := 1 \<rparr>)"
proof -
  have i: "indexInvariant lastOfThree"
    by (simp add: indexInvariant_def lastOfThree_def firstOfThree_def)
  have st: "step threeMatchHost threeMatchHost (MoveResultIndex 2) lastOfThree
       = Inr (lastOfThree\<lparr> currentSearchResultIndex := 1 \<rparr>,
              [JumpToResult (Some 20), Resolve])"
    by (simp add: step_def searchEffect_def moveResultIndex_def threeMatchHost_def
          lastOfThree_def firstOfThree_def js_rem_def at_index_def Let_def)
  have g: "- int (length (searchResults lastOfThree)) \<le> currentSearchResultIndex lastOfThree + 2"
    by (simp add: lastOfThree_def firstOfThree_def)
  from index_invariant_preserved
         [where s = lastOfThree and ev = "MoveResultIndex 2" and props = threeMatchHost
            and s' = "lastOfThree\<lparr> currentSearchResultIndex := 1 \<rparr>"
            and effs = "[JumpToResult (Some 20), Resolve]"]
  have "indexInvariant (initialSearchState :: nat ISearchAndReplaceState)"
    and "indexInvariant (lastOfThree\<lparr> currentSearchResultIndex := 1 \<rparr>)"
    using i st g by simp_all
  with i st g show ?thesis by simp
qed

subsection \<open>Active search without a guard\<close>

text \<open>
  Claim C4: \<open>performSearch(true)\<close> calls \<open>jumpToResult\<close> unconditionally with
  \<open>searchResults[currentSearchResultIndex]\<close> of the fresh results: the match at the
  index when the index is inside the fresh list, \<open>undefined\<close> when the list is empty.
  Without a \<open>jumpToResult\<close> prop the call is to an absent function and throws, and
  this is reached by mounting the hook alone, whose first effect is an active search.
  (The guard \<open>if (jumpToResult)\<close> of \<open>moveResultIndex\<close> has no counterpart here.)
\<close>

theorem performSearch_active_calls_jumpToResult_unguarded:
  "(jumpToResult props = None \<longrightarrow>
      performSearch props True s = Inl TypeError \<and> mount props = Inl TypeError)
   \<and> (jumpToResult props = Some j \<longrightarrow>
        performSearch props True s =
          Inr (s\<lparr> searchResults :=
                    getSearchResults props (searchString s) (searchOptions s) \<rparr>,
               [GetSearchResults (searchString s) (searchOptions s),
                JumpToResult
                  (at_index (getSearchResults props (searchString s) (searchOptions s))
                     (currentSearchResultIndex s))]
               @ (if j (at_index (getSearchResults props (searchString s) (searchOptions s))
                          (currentSearchResultIndex s))
                  then [FocusSearchBar] else [])))
   \<and> (getSearchResults props (searchString s) (searchOptions s) = [] \<longrightarrow>
        at_index (getSearchResults props (searchString s) (searchOptions s))
          (currentSearchResultIndex s) = None)
   \<and> (0 \<le> currentSearchResultIndex s
        \<and> currentSearchResultIndex s
            < int (length (getSearchResults props (searchString s) (searchOptions s))) \<longrightarrow>
        at_index (getSearchResults props (searchString s) (searchOptions s))
          (currentSearchResultIndex s)
        = Some (getSearchResults props (searchString s) (searchOptions s)
                  ! nat (currentSearchResultIndex s)))"
  by (auto simp add: performSearch_def mount_def at_index_def Let_def)

theorem performSearch_active_calls_jumpToResult_unguarded_witness:
  "jumpToResult noJumpHost = None
   \<and> performSearch noJumpHost True lastOfThree = Inl TypeError
   \<and> mount noJumpHost = Inl TypeError
   \<and> jumpToResult threeMatchHost = Some (\<lambda>m. True)
   \<and> 0 \<le> currentSearchResultIndex lastOfThree
   \<and> currentSearchResultIndex lastOfThree
       < int (length (getSearchResults threeMatchHost (searchString lastOfThree)
                        (searchOptions lastOfThree)))
   \<and> performSearch threeMatchHost True lastOfThree =
       Inr (lastOfThree,
            [GetSearchResults [0x66, 0x6F, 0x6F]
               (Obj 0 \<lparr> matchCase = False, useRegex = False \<rparr>),
             JumpToResult (Some 30), FocusSearchBar])
   \<and> jumpToResult noMatchHost = Some (\<lambda>m. True)
   \<and> getSearchResults noMatchHost (searchString lastOfThree) (searchOptions lastOfThree)
       = []
   \<and> performSearch noMatchHost True lastOfThree =
       Inr (lastOfThree\<lparr> searchResults := [] \<rparr>,
            [GetSearchResults [0x66, 0x6F, 0x6F]
               (Obj 0 \<lparr> matchCase = False, useRegex = False \<rparr>),
             JumpToResult None, FocusSearchBar])"
  using performSearch_active_calls_jumpToResult_unguarded
          [of noJumpHost lastOfThree "\<lambda>m. True"]
        performSearch_active_calls_jumpToResult_unguarded
          [of threeMatchHost lastOfThree "\<lambda>m. True"]
        performSearch_active_calls_jumpToResult_unguarded
          [of noMatchHost lastOfThree "\<lambda>m. True"]
  by (simp add: noJumpHost_def threeMatchHost_def noMatchHost_def lastOfThree_def
        firstOfThree_def)

subsection \<open>Replacing\<close>

text \<open>
  Claim C5: with non-empty \<open>searchResults\<close>, \<open>onReplace(false)\<close> at the last index
  replaces exactly the match at the current index and then moves the index to 0;
  \<open>onReplace(true)\<close> replaces all current matches in one call of the host and leaves
  the index (and the rest of the state) as it is.
\<close>

theorem onReplace_last_wraps_and_all_keeps_index:
  assumes "searchResults s \<noteq> []"
  shows "(currentSearchResultIndex s = int (length (searchResults s)) - 1 \<longrightarrow>
      onReplace firstProps False s =
       (s\<lparr> currentSearchResultIndex := 0 \<rparr>,
        Replace [Some (searchResults s ! nat (currentSearchResultIndex s))] (replaceString s)
          # (case jumpToResult firstProps of
               Some j \<Rightarrow> JumpToResult (Some (searchResults s ! 0))
                          # (if j (Some (searchResults s ! 0)) then [Resolve] else [])
             | None \<Rightarrow> [Resolve])))
     \<and> onReplace firstProps True s =
         (s, [Replace (map Some (searchResults s)) (replaceString s)])"
proof (intro conjI impI)
  assume last: "currentSearchResultIndex s = int (length (searchResults s)) - 1"
  have "at_index (searchResults s) (currentSearchResultIndex s)
          = Some (searchResults s ! nat (currentSearchResultIndex s))"
    using assms last by (simp add: at_index_def)
  then show "onReplace firstProps False s =
       (s\<lparr> currentSearchResultIndex := 0 \<rparr>,
        Replace [Some (searchResults s ! nat (currentSearchResultIndex s))] (replaceString s)
          # (case jumpToResult firstProps of
               Some j \<Rightarrow> JumpToResult (Some (searchResults s ! 0))
                          # (if j (Some (searchResults s ! 0)) then [Resolve] else [])
             | None \<Rightarrow> [Resolve]))"
    using last moveResultIndex_last [OF assms last, of firstProps]
    by (simp add: onReplace_def Let_def)
next
  show "onReplace firstProps True s = (s, [Replace (map Some (searchResults s)) (replaceString s)])"
    by (simp add: onReplace_def)
qed

theorem onReplace_last_wraps_and_all_keeps_index_witness:
  "searchResults lastOfThree \<noteq> []
   \<and> currentSearchResultIndex lastOfThree = int (length (searchResults lastOfThree)) - 1
   \<and> onReplace threeMatchHost False lastOfThree
       = (firstOfThree, [Replace [Some 30] [0x62], JumpToResult (Some 10), Resolve])
   \<and> onReplace threeMatchHost True lastOfThree
       = (lastOfThree, [Replace [Some 10, Some 20, Some 30] [0x62]])"
  using onReplace_last_wraps_and_all_keeps_index [of lastOfThree threeMatchHost]
  by (simp add: lastOfThree_def firstOfThree_def threeMatchHost_def)

subsection \<open>No results, reset, and the replacement text\<close>

text \<open>
  Claim C7: with empty \<open>searchResults\<close>, \<open>moveResultIndex(delta)\<close> leaves the state
  as it is for every delta, resolves its promise, and calls no navigation callback;
  no search follows.
\<close>

theorem moveResultIndex_without_results:
  assumes "searchResults s = []"
  shows "moveResultIndex firstProps delta s = (s, [Resolve])
     \<and> step firstProps props (MoveResultIndex delta) s = Inr (s, [Resolve])"
  using assms by (simp add: step_def moveResultIndex_def searchEffect_def)

theorem moveResultIndex_without_results_witness:
  "searchResults noMatches = []
   \<and> moveResultIndex threeMatchHost 1 noMatches = (noMatches, [Resolve])
   \<and> step threeMatchHost threeMatchHost (MoveResultIndex 1) noMatches = Inr (noMatches, [Resolve])"
  using moveResultIndex_without_results [of noMatches threeMatchHost 1]
  by (simp add: noMatches_def)

text \<open>
  Claim C8, as stated: from every prior state, \<open>reset()\<close> restores every field to its
  initial value, \<open>searchResults\<close> to the empty list. The update does, but it changes
  the query, so the search effect of the following render runs: after \<open>reset()\<close>
  from the query \<open>foo\<close>, with a host that finds three matches for any query, the hook
  holds three results again.
\<close>

theorem reset_is_followed_by_a_search:
  "step threeMatchHost threeMatchHost Reset lastOfThree =
     Inr (initialSearchState\<lparr> searchResults := [10, 20, 30] \<rparr>,
          [GetSearchResults [] (Obj 0 \<lparr> matchCase = False, useRegex = False \<rparr>),
           JumpToResult (Some 10), FocusSearchBar])
   \<and> searchResults (initialSearchState\<lparr> searchResults := [10, 20, 30 :: nat] \<rparr>) \<noteq> []"
  by (simp add: step_def searchEffect_def performSearch_def reset_def threeMatchHost_def
        lastOfThree_def firstOfThree_def initialSearchState_def at_index_def Let_def)

text \<open>
  Claim C8, amended: from every prior state, the update of \<open>reset()\<close> sets
  \<open>searchString\<close> and \<open>replaceString\<close> to the empty string, \<open>searchResults\<close> to the
  empty list, \<open>currentSearchResultIndex\<close> to 0 and \<open>searchOptions\<close> to the initial
  options object \<open>{ matchCase: false, useRegex: false }\<close>. If the prior query was
  empty and the prior options were that same object, nothing follows and the hook
  holds the initial state. Otherwise the search effect runs one active search for the
  empty query and the initial options (the host supplying \<open>jumpToResult\<close>), after
  which \<open>searchResults\<close> is what the host finds for them and every other field has
  its initial value.
\<close>

theorem reset_restores_initial_values_then_searches:
  "reset s =
     \<lparr> searchString = [],
       replaceString = [],
       searchResults = [],
       currentSearchResultIndex = 0,
       searchOptions = Obj 0 \<lparr> matchCase = False, useRegex = False \<rparr> \<rparr>
   \<and> (searchString s = [] \<and> ref (searchOptions s) = 0 \<longrightarrow>
        step firstProps props Reset s = Inr (initialSearchState, []))
   \<and> (jumpToResult props = Some j
        \<and> (searchString s \<noteq> [] \<or> ref (searchOptions s) \<noteq> 0) \<longrightarrow>
        step firstProps props Reset s =
          Inr (initialSearchState
                 \<lparr> searchResults :=
                     getSearchResults props []
                       (Obj 0 \<lparr> matchCase = False, useRegex = False \<rparr>) \<rparr>,
               [GetSearchResults [] (Obj 0 \<lparr> matchCase = False, useRegex = False \<rparr>),
                JumpToResult
                  (at_index
                     (getSearchResults props []
                        (Obj 0 \<lparr> matchCase = False, useRegex = False \<rparr>)) 0)]
               @ (if j (at_index
                          (getSearchResults props []
                             (Obj 0 \<lparr> matchCase = False, useRegex = False \<rparr>)) 0)
                  then [FocusSearchBar] else [])))"
  by (auto simp add: step_def searchEffect_def performSearch_def reset_def
        initialSearchState_def Let_def)

theorem reset_restores_initial_values_then_searches_witness:
  "reset lastOfThree = (initialSearchState :: nat ISearchAndReplaceState)
   \<and> searchString (initialSearchState :: nat ISearchAndReplaceState) = []
   \<and> ref (searchOptions (initialSearchState :: nat ISearchAndReplaceState)) = 0
   \<and> step threeMatchHost threeMatchHost Reset initialSearchState
       = Inr (initialSearchState, [])
   \<and> jumpToResult noMatchHost = Some (\<lambda>m. True)
   \<and> searchString lastOfThree \<noteq> []
   \<and> step threeMatchHost noMatchHost Reset lastOfThree
       = Inr (initialSearchState,
              [GetSearchResults [] (Obj 0 \<lparr> matchCase = False, useRegex = False \<rparr>),
               JumpToResult None, FocusSearchBar])"
  using reset_restores_initial_values_then_searches
          [where s = lastOfThree and firstProps = threeMatchHost and props = noMatchHost
             and j = "\<lambda>m. True"]
        reset_restores_initial_values_then_searches
          [where s = "initialSearchState :: nat ISearchAndReplaceState"
             and firstProps = threeMatchHost and props = threeMatchHost
             and j = "\<lambda>m. True"]
  by (simp add: noMatchHost_def lastOfThree_def firstOfThree_def initialSearchState_def
        at_index_def)

text \<open>
  Claim C10: \<open>onReplaceStringChange(r)\<close> updates \<open>replaceString\<close> only, and no
  search follows: the step has no effect on the host at all.
\<close>

theorem onReplaceStringChange_frame:
  "step firstProps props (ReplaceStringChange r) s = Inr (s\<lparr> replaceString := r \<rparr>, [])
   \<and> searchString (onReplaceStringChange r s) = searchString s
   \<and> searchResults (onReplaceStringChange r s) = searchResults s
   \<and> currentSearchResultIndex (onReplaceStringChange r s) = currentSearchResultIndex s
   \<and> searchOptions (onReplaceStringChange r s) = searchOptions s
   \<and> replaceString (onReplaceStringChange r s) = r"
  by (simp add: step_def searchEffect_def onReplaceStringChange_def)

theorem onReplaceStringChange_frame_witness:
  "step threeMatchHost oneMatchHost (ReplaceStringChange [0x7A]) lastOfThree
     = Inr (lastOfThree\<lparr> replaceString := [0x7A] \<rparr>, [])"
  using onReplaceStringChange_frame [of threeMatchHost oneMatchHost "[0x7A]" lastOfThree]
  by simp

section \<open>Properties of the tag creator widget\<close>

subsection \<open>What the regular expression accepts\<close>

lemma set_classRange: "set (classRange lo hi) = {c. lo \<le> c \<and> c \<le> hi}"
proof (intro set_eqI iffI)
  fix c assume "c \<in> set (classRange lo hi)"
  then obtain n where n: "c = word_of_nat n" "unat lo \<le> n" "n \<le> unat hi"
    by (auto simp: classRange_def)
  have "unat hi < 2 ^ 16" using unsigned_less [of hi] by simp
  with n have "unat c = n" by (simp add: unat_of_nat)
  with n show "c \<in> {c. lo \<le> c \<and> c \<le> hi}" by (simp add: word_le_nat_alt)
next
  fix c assume "c \<in> {c. lo \<le> c \<and> c \<le> hi}"
  then have "unat c \<in> set [unat lo ..< Suc (unat hi)]" by (auto simp add: word_le_nat_alt)
  then have "word_of_nat (unat c) \<in> set (classRange lo hi)"
    unfolding classRange_def set_map by (rule imageI)
  then show "c \<in> set (classRange lo hi)" by simp
qed

lemma unat_toUpperCaseAscii:
  "unat (toUpperCaseAscii ch) =
     (if 97 \<le> unat ch \<and> unat ch \<le> 122 then unat ch - 32 else unat ch)"
proof (cases "0x61 \<le> ch \<and> ch \<le> 0x7A")
  case True
  then have "(0x20 :: codeunit) \<le> ch" by (simp add: word_le_nat_alt)
  then have "unat (ch - 0x20) = unat ch - unat (0x20 :: codeunit)" by (rule unat_sub)
  with True show ?thesis by (simp add: toUpperCaseAscii_def word_le_nat_alt)
next
  case False
  then show ?thesis by (auto simp add: toUpperCaseAscii_def word_le_nat_alt)
qed

lemma unat_alphanumeric:
  "alphanumeric ch \<longleftrightarrow>
     (97 \<le> unat ch \<and> unat ch \<le> 122) \<or> (65 \<le> unat ch \<and> unat ch \<le> 90)
       \<or> (48 \<le> unat ch \<and> unat ch \<le> 57)"
  by (simp add: alphanumeric_def word_le_nat_alt)

lemma Canonicalize_ascii:
  "ch < 128 \<Longrightarrow> Canonicalize upper ch = toUpperCaseAscii ch"
  by (auto simp add: Canonicalize_def Let_def)

lemma Canonicalize_non_ascii:
  "128 \<le> ch \<Longrightarrow> 128 \<le> Canonicalize upper ch"
  by (auto simp add: Canonicalize_def Let_def)

text \<open>
  Under the flag \<open>i\<close>, the class \<open>[a-z0-9]\<close> holds exactly the ASCII letters of both
  cases and the digits, whatever the upper-case table does beyond ASCII.
\<close>

lemma class_ignoreCase_iff:
  "list_ex (\<lambda>a. Canonicalize upper a = Canonicalize upper ch)
     (classRange 0x61 0x7A @ classRange 0x30 0x39) \<longleftrightarrow> alphanumeric ch"
proof
  assume "list_ex (\<lambda>a. Canonicalize upper a = Canonicalize upper ch)
            (classRange 0x61 0x7A @ classRange 0x30 0x39)"
  then obtain a where a: "(0x61 \<le> a \<and> a \<le> 0x7A) \<or> (0x30 \<le> a \<and> a \<le> 0x39)"
      and eq: "Canonicalize upper a = Canonicalize upper ch"
    by (auto simp: list_ex_iff set_classRange)
  from a have a128: "a < 128" by (auto simp: word_le_nat_alt word_less_nat_alt)
  from a have ua: "unat (toUpperCaseAscii a) < 128"
    by (auto simp: unat_toUpperCaseAscii word_le_nat_alt)
  have ch128: "ch < 128"
  proof (rule ccontr)
    assume "\<not> ch < 128"
    then have "128 \<le> Canonicalize upper ch" by (simp add: Canonicalize_non_ascii)
    with eq a128 ua show False
      by (simp add: Canonicalize_ascii word_le_nat_alt)
  qed
  from eq a128 ch128 have "unat (toUpperCaseAscii a) = unat (toUpperCaseAscii ch)"
    by (simp add: Canonicalize_ascii)
  with a show "alphanumeric ch"
    by (auto simp: unat_toUpperCaseAscii unat_alphanumeric word_le_nat_alt split: if_splits)
next
  assume "alphanumeric ch"
  then consider (lower) "0x61 \<le> ch" "ch \<le> 0x7A" | (upper) "0x41 \<le> ch" "ch \<le> 0x5A"
    | (digit) "0x30 \<le> ch" "ch \<le> 0x39"
    by (auto simp: alphanumeric_def)
  then show "list_ex (\<lambda>a. Canonicalize upper a = Canonicalize upper ch)
               (classRange 0x61 0x7A @ classRange 0x30 0x39)"
  proof cases
    case lower
    then show ?thesis by (auto simp: list_ex_iff set_classRange)
  next
    case digit
    then show ?thesis by (auto simp: list_ex_iff set_classRange)
  next
    case upper
    then have u: "65 \<le> unat ch" "unat ch \<le> 90" by (simp_all add: word_le_nat_alt)
    then have "unat ch + unat (0x20 :: codeunit) < 2 ^ LENGTH(16)" by simp
    then have s: "unat (ch + 0x20) = unat ch + unat (0x20 :: codeunit)"
      by (simp only: unat_add_lem)
    with u have r: "0x61 \<le> ch + 0x20" "ch + 0x20 \<le> 0x7A" by (simp_all add: word_le_nat_alt)
    from u s have lt: "ch < 128" "ch + 0x20 < 128" by (simp_all add: word_less_nat_alt)
    from u s have "unat (toUpperCaseAscii (ch + 0x20)) = unat (toUpperCaseAscii ch)"
      by (simp add: unat_toUpperCaseAscii)
    then have "toUpperCaseAscii (ch + 0x20) = toUpperCaseAscii ch"
      by (simp only: word_unat_eq_iff)
    with lt have "Canonicalize upper (ch + 0x20) = Canonicalize upper ch"
      by (simp add: Canonicalize_ascii)
    with r show ?thesis by (auto simp: list_ex_iff set_classRange)
  qed
qed

lemma CharacterSetMatcher_step:
  "CharacterSetMatcher upper (classRange 0x61 0x7A @ classRange 0x30 0x39) input x c =
     (if x < length input \<and> alphanumeric (input ! x) then c (x + 1) else None)"
  using class_ignoreCase_iff [of upper "input ! x"]
  by (auto simp add: CharacterSetMatcher_def Let_def)

text \<open>
  A quantified one-character matcher followed by the end of the input: it succeeds
  exactly when the rest of the input has an allowed length and every code unit of it
  matches. Induction on the upper bound, as the matcher recurses.
\<close>

lemma RepeatMatcher_to_end:
  assumes m: "\<And>x c. m input x c =
                (if x < length input \<and> P (input ! x) then c (x + 1) else None)"
    and "rmin \<le> rmax" "x \<le> length input"
  shows "RepeatMatcher m rmin rmax input x
           (\<lambda>y. if y = length input then Some y else None) =
         (if rmin \<le> length input - x \<and> length input - x \<le> rmax
               \<and> list_all P (drop x input)
          then Some (length input) else None)"
  using assms(2,3)
proof (induction rmax arbitrary: rmin x)
  case 0
  then show ?case by auto
next
  case (Suc rmax)
  show ?case
  proof (cases "x < length input \<and> P (input ! x)")
    case False
    then have "\<not> (1 \<le> length input - x \<and> list_all P (drop x input))"
      by (auto simp: Cons_nth_drop_Suc [symmetric])
    with False Suc.prems show ?thesis
      by (auto simp: m Let_def)
  next
    case True
    then have d: "drop x input = input ! x # drop (Suc x) input"
      by (simp add: Cons_nth_drop_Suc)
    from True Suc.prems have p: "rmin - Suc 0 \<le> rmax" "Suc x \<le> length input"
      by simp_all
    note IH = Suc.IH [OF p] Suc.IH [OF le0 p(2)]
    from True Suc.prems show ?thesis
      by (auto simp: m d IH Let_def)
  qed
qed

lemma tagRegex_at_0:
  "tagRegex upper input 0 (\<lambda>y. Some y) =
     (if matchesTagPattern input then Some (length input) else None)"
proof -
  have "RepeatMatcher
          (CharacterSetMatcher upper (classRange 0x61 0x7A @ classRange 0x30 0x39))
          1 255 input 0 (\<lambda>y. if y = length input then Some y else None) =
        (if 1 \<le> length input - 0 \<and> length input - 0 \<le> 255
              \<and> list_all alphanumeric (drop 0 input)
         then Some (length input) else None)"
    by (rule RepeatMatcher_to_end) (simp_all add: CharacterSetMatcher_step)
  then show ?thesis
    by (simp add: tagRegex_def Seq_def AssertBegin_def AssertEnd_def matchesTagPattern_def)
qed

lemma tagRegex_later:
  "0 < x \<Longrightarrow> tagRegex upper input x c = None"
  by (simp add: tagRegex_def Seq_def AssertBegin_def)

lemma execFrom_later:
  "0 < lastIndex \<Longrightarrow> execFrom (tagRegex upper) input lastIndex = None"
proof (induction "tagRegex upper" input lastIndex rule: execFrom.induct)
  case (1 input lastIndex)
  then show ?case by (simp add: tagRegex_later)
qed

lemma js_match_tagRegex:
  "js_match val (tagRegex upper) = (if matchesTagPattern val then Some val else None)"
  unfolding js_match_def execFrom.simps [of _ _ 0]
  by (simp add: tagRegex_at_0 execFrom_later del: execFrom.simps)

subsection \<open>The validator and the creation request\<close>

text \<open>
  Claim C6: the validator accepts a candidate exactly when it matches
  \<open>^[a-z0-9]{1,255}$\<close> case-insensitively (1 to 255 code units, each an ASCII letter
  or digit) and is not, as it is written, one of the existing tag names; it is a
  total predicate, so every other input is rejected with \<open>False\<close>.
\<close>

theorem isValidCheck_iff:
  "isValidCheck upper tags val \<longleftrightarrow>
     matchesTagPattern val \<and> val \<notin> set (existingTags tags)"
  by (simp add: isValidCheck_def js_match_tagRegex)

theorem isValidCheck_iff_witness:
  "isValidCheck (\<lambda>ch. ch) (Some [\<lparr> name = [0x61, 0x62] \<rparr>]) [0x41, 0x62, 0x31]
   \<and> \<not> isValidCheck (\<lambda>ch. ch) (Some [\<lparr> name = [0x61, 0x62] \<rparr>]) [0x61, 0x62]
   \<and> isValidCheck (\<lambda>ch. ch) (Some [\<lparr> name = [0x61, 0x62] \<rparr>]) [0x41, 0x62]
   \<and> \<not> isValidCheck (\<lambda>ch. ch) None [0x61, 0x2D, 0x62]
   \<and> \<not> isValidCheck (\<lambda>ch. ch) None []"
  using isValidCheck_iff [of "\<lambda>ch. ch" "Some [\<lparr> name = [0x61, 0x62] \<rparr>]" "[0x41, 0x62, 0x31]"]
        isValidCheck_iff [of "\<lambda>ch. ch" "Some [\<lparr> name = [0x61, 0x62] \<rparr>]" "[0x61, 0x62]"]
        isValidCheck_iff [of "\<lambda>ch. ch" "Some [\<lparr> name = [0x61, 0x62] \<rparr>]" "[0x41, 0x62]"]
        isValidCheck_iff [of "\<lambda>ch. ch" None "[0x61, 0x2D, 0x62]"]
        isValidCheck_iff [of "\<lambda>ch. ch" None "[]"]
  by (simp add: matchesTagPattern_def alphanumeric_def existingTags_def)

text \<open>
  Claim C9, as stated: the input collapses once the request settles, on the success
  and on the failure path identically, and the failure is not surfaced. The widget's
  state is the same on both paths, but \<open>finally\<close> passes the rejection on and
  nothing handles it: the failure path ends with an unhandled rejection, the success
  path does not.
\<close>

theorem handleCreateTag_rejection_is_passed_on:
  "handleCreateTag (\<lambda>tableId val. Some Rejected) 7 [0x61] \<lparr> showSelect = True \<rparr>
     = (\<lparr> showSelect = False \<rparr>, [CreateTableTag 7 [0x61], UnhandledRejection])
   \<and> handleCreateTag (\<lambda>tableId val. Some Fulfilled) 7 [0x61] \<lparr> showSelect = True \<rparr>
     = (\<lparr> showSelect = False \<rparr>, [CreateTableTag 7 [0x61]])"
  by (simp add: handleCreateTag_def promiseFinally_def setShowSelect_def)

text \<open>
  Claim C9, amended: \<open>handleCreateTag\<close> issues the creation request for
  \<open>(tableId, val)\<close>. While the request is pending the state is unchanged (the input
  stays as it is); once it settles, \<open>showSelect\<close> becomes false, with the same
  resulting state whether it was fulfilled or rejected. The widget does not inspect
  the outcome and does not handle it either: a rejection is passed on by \<open>finally\<close>
  and left unhandled.
\<close>

theorem handleCreateTag_collapses_when_settled:
  "(createTableTag tableId val = None \<longrightarrow>
      handleCreateTag createTableTag tableId val s = (s, [CreateTableTag tableId val]))
   \<and> (createTableTag tableId val = Some Fulfilled \<longrightarrow>
        handleCreateTag createTableTag tableId val s
          = (s\<lparr> showSelect := False \<rparr>, [CreateTableTag tableId val]))
   \<and> (createTableTag tableId val = Some Rejected \<longrightarrow>
        handleCreateTag createTableTag tableId val s
          = (s\<lparr> showSelect := False \<rparr>, [CreateTableTag tableId val, UnhandledRejection]))"
  by (simp add: handleCreateTag_def promiseFinally_def setShowSelect_def)

theorem handleCreateTag_collapses_when_settled_witness:
  "(\<lambda>tableId val. None :: settled option) 7 [0x61] = None
   \<and> handleCreateTag (\<lambda>tableId val. None) 7 [0x61] \<lparr> showSelect = True \<rparr>
       = (\<lparr> showSelect = True \<rparr>, [CreateTableTag 7 [0x61]])
   \<and> (\<lambda>tableId val. Some Fulfilled) 7 [0x61] = Some Fulfilled
   \<and> handleCreateTag (\<lambda>tableId val. Some Fulfilled) 7 [0x61] \<lparr> showSelect = True \<rparr>
       = (\<lparr> showSelect = False \<rparr>, [CreateTableTag 7 [0x61]])
   \<and> (\<lambda>tableId val. Some Rejected) 7 [0x61] = Some Rejected
   \<and> handleCreateTag (\<lambda>tableId val. Some Rejected) 7 [0x61] \<lparr> showSelect = True \<rparr>
       = (\<lparr> showSelect = False \<rparr>, [CreateTableTag 7 [0x61], UnhandledRejection])"
  using handleCreateTag_collapses_when_settled
          [of "\<lambda>tableId val. None" 7 "[0x61]" "\<lparr> showSelect = True \<rparr>"]
        handleCreateTag_collapses_when_settled
          [of "\<lambda>tableId val. Some Fulfilled" 7 "[0x61]" "\<lparr> showSelect = True \<rparr>"]
        handleCreateTag_collapses_when_settled
          [of "\<lambda>tableId val. Some Rejected" 7 "[0x61]" "\<lparr> showSelect = True \<rparr>"]
  by simp

end
